theory Spec2Isabelle
  imports Main
begin

section \<open>The connection engine of the Wave server (client.go)\<close>

text \<open>
  The theory embeds \<^verbatim>\<open>src/client.go\<close>: the websocket client of the Wave server, with its
  read loop (\<^verbatim>\<open>listen\<close>), its write loop (\<^verbatim>\<open>flush\<close>), the non-blocking \<^verbatim>\<open>send\<close> and
  the header merge (\<^verbatim>\<open>mergeHeaders\<close>).  Mutation is explicit state passing, a Go panic is
  the left summand of a result, and what the collaborators outside this file answer
  (the Broker, the Session, the message parser, \<^verbatim>\<open>encoding/json\<close>) is a record of
  functions the engine is given.
\<close>

subsection \<open>Data\<close>

type_synonym bytes = string

text \<open>
  \<^verbatim>\<open>map[string]string\<close>, as \<^verbatim>\<open>headersMap\<close> and \<^verbatim>\<open>argsMap\<close>: a finite map.
\<close>

type_synonym StrMap = "string \<rightharpoonup> string"

text \<open>
  \<^verbatim>\<open>http.Header\<close> is \<^verbatim>\<open>map[string][]string\<close>.  The code ranges over it, so it is the
  list of its entries (a Go map has each key once, in no fixed order); \<open>None\<close> is the nil
  map, which \<^verbatim>\<open>mergeHeaders\<close> tests for.
\<close>

type_synonym Header = "(string \<times> string list) list option"

text \<open>
  A Go panic ends the process: the nil dereference of a pointer (named by the expression
  that is dereferenced), a send on a closed channel, the close of a closed channel.
\<close>

datatype Panic = NilDereference string | SendOnClosedChannel | CloseOfClosedChannel

type_synonym Token = string

text \<open>
  \<^verbatim>\<open>Session\<close>, \<^verbatim>\<open>Auth\<close>, \<^verbatim>\<open>App\<close>, \<^verbatim>\<open>OpsD\<close>, \<^verbatim>\<open>Meta\<close> and \<^verbatim>\<open>Msg\<close> are declared outside
  client.go; each is given the fields client.go reads or writes.
\<close>

record Session =
  subject :: string
  username :: string
  token :: "Token option"

record Auth =
  InactivityTimeout :: int  \<comment> \<open>\<^verbatim>\<open>auth.conf.InactivityTimeout\<close>\<close>

text \<open>
  \<^verbatim>\<open>app.mode\<close>: the switch in \<^verbatim>\<open>listen\<close> has a case for \<^verbatim>\<open>unicastMode\<close>, one for
  \<^verbatim>\<open>multicastMode\<close> and no default; \<open>otherMode\<close> stands for any value it has no case for.
\<close>

datatype Mode = unicastMode | multicastMode | otherMode

datatype App = App (appRoute: string) (mode: Mode)

text \<open>A page of the site, as what \<^verbatim>\<open>page.marshal()\<close> returns: \<open>None\<close> is nil.\<close>

datatype Page = Page (marshal: "bytes option")

text \<open>
  \<^verbatim>\<open>m.t\<close>: the switch in \<^verbatim>\<open>listen\<close> has a case for each of the first three values and
  no default; \<open>otherMsgT\<close> stands for any value it has no case for.
\<close>

datatype MsgT = patchMsgT | queryMsgT | watchMsgT | otherMsgT

record Msg =
  m_t :: MsgT
  m_addr :: string
  m_data :: bytes

record Meta =
  Username :: string
  Editor :: bool

record OpsD =
  U :: string
  M :: "Meta option"

text \<open>\<^verbatim>\<open>type Boot struct { Hash string `json:"#,omitempty"` }\<close>\<close>

record Boot =
  Hash :: string

text \<open>
  The body forwarded to an app, \<^verbatim>\<open>map[string]map[string]string\<close>.  An inner map is a Go
  map value that \<^verbatim>\<open>json.Unmarshal\<close> was given to write: \<open>None\<close> is the nil map.
\<close>

type_synonym Body = "string \<rightharpoonup> StrMap option"

type_synonym Log = "(string \<times> string) list"

text \<open>\<^verbatim>\<open>chan []byte\<close>: the buffered messages, oldest first, the capacity, and whether closed.\<close>

record Chan =
  buf :: "bytes list"
  cap :: nat
  closed :: bool

text \<open>
  \<^verbatim>\<open>type Client struct\<close>.  \<^verbatim>\<open>auth\<close> and \<^verbatim>\<open>session\<close> are pointers the code compares with
  nil: \<open>None\<close> is nil.  \<^verbatim>\<open>header\<close> points to the header map captured when the connection
  was accepted; the code never compares this pointer, the pointers of the header cache, the
  broker or the connection with nil, and they are taken to point to something.  The broker
  and the connection are part of \<open>World\<close> below.
\<close>

record Client =
  clientID :: string  \<comment> \<open>\<^verbatim>\<open>id\<close>\<close>
  auth :: "Auth option"
  addr :: string
  session :: "Session option"
  routes :: "string list"
  data :: Chan
  editable :: bool
  baseURL :: string
  header :: Header

datatype WireMsg = TextMessage bytes | CloseMessage bytes | PingMessage bytes

record Conn =
  written :: "WireMsg list"  \<comment> \<open>the messages written to the peer, oldest first\<close>
  connClosed :: bool

text \<open>
  The client and what it acts on: the Broker's header cache
  (\<^verbatim>\<open>c.broker.site.clientIDToHeaders\<close>), what was sent on the Broker's \<^verbatim>\<open>subscribe\<close> and
  \<^verbatim>\<open>unsubscribe\<close> channels, the calls of \<^verbatim>\<open>broker.patch\<close> and \<^verbatim>\<open>app.forward\<close>, the
  log lines, and the websocket connection.
\<close>

record World =
  client :: Client
  clientIDToHeaders :: "string \<rightharpoonup> Header"
  subscribeCh :: "(string \<times> string) list"  \<comment> \<open>\<^verbatim>\<open>Sub{route, c}\<close>, the client by its id\<close>
  unsubscribeCh :: "string list"
  patched :: "(string \<times> bytes) list"
  forwarded :: "(App \<times> string \<times> Session option \<times> bytes) list"
  echoed :: "Log list"
  conn :: Conn

text \<open>
  What the code outside client.go answers during one iteration of the read loop.
  \<^verbatim>\<open>json.Marshal\<close> gives \<open>None\<close> when it returns an error; \<^verbatim>\<open>json.Unmarshal(data, &m)\<close>
  gives its error, if any, and the map as it leaves it; \<^verbatim>\<open>touch\<close> gives the session as it
  leaves it and its error, if any.
\<close>

record Env =
  ensureValidOAuth2Token :: "Token \<Rightarrow> string + Token option"
  touch :: "Session \<Rightarrow> int \<Rightarrow> Session \<times> string option"
  parseMsg :: "bytes \<Rightarrow> Msg"
  resolveURL :: "string \<Rightarrow> string \<Rightarrow> string"
  getApp :: "string \<Rightarrow> App option"
  siteAt :: "string \<Rightarrow> Page option"
  jsonMarshalOpsD :: "OpsD \<Rightarrow> bytes option"
  jsonMarshalBoot :: "Boot \<Rightarrow> bytes option"
  jsonMarshalBody :: "Body \<Rightarrow> bytes option"
  jsonUnmarshal :: "bytes \<Rightarrow> StrMap option \<Rightarrow> string option \<times> StrMap option"
  emptyJSON :: bytes


definition notFoundMsg :: bytes where
  "notFoundMsg = ''{\"e\":\"not_found\"}''"

subsection \<open>mergeHeaders\<close>

text \<open>
  \<^verbatim>\<open>strings.Join(elems, sep)\<close>: nothing for no element, the element itself for one, and
  otherwise the elements with \<open>sep\<close> between them.
\<close>

fun Join :: "string list \<Rightarrow> string \<Rightarrow> string" where
  "Join [] sep = []"
| "Join [x] sep = x"
| "Join (x # y # ys) sep = x @ sep @ Join (y # ys) sep"

text \<open>
  One loop of \<^verbatim>\<open>mergeHeaders\<close> (lines 268--273 and 274--279):
  \<^verbatim>\<open>if h != nil { for k, v := range h { headersMap[k] = strings.Join(v, ",") } }\<close>.
\<close>

fun rangeJoin :: "StrMap \<Rightarrow> (string \<times> string list) list \<Rightarrow> StrMap" where
  "rangeJoin headersMap [] = headersMap"
| "rangeJoin headersMap ((k, v) # h) = rangeJoin (headersMap(k \<mapsto> Join v '','')) h"

definition joinInto :: "StrMap \<Rightarrow> Header \<Rightarrow> StrMap" where
  "joinInto headersMap h = (case h of None \<Rightarrow> headersMap | Some es \<Rightarrow> rangeJoin headersMap es)"

text \<open>
  \<^verbatim>\<open>func mergeHeaders(headersMap map[string]string, h1, h2 http.Header)\<close>, documented as
  "Merge two http.Headers, preferring the first one": the entries of \<open>h2\<close> are written
  first, those of \<open>h1\<close> after them.  The map written into (its caller makes a new one) is
  returned.
\<close>

definition mergeHeaders :: "StrMap \<Rightarrow> Header \<Rightarrow> Header \<Rightarrow> StrMap" where
  "mergeHeaders headersMap h1 h2 = joinInto (joinInto headersMap h2) h1"

subsection \<open>newClient, send, subscribe\<close>

text \<open>
  \<^verbatim>\<open>newClient\<close>: no route yet, and \<^verbatim>\<open>make(chan []byte, 256)\<close>.
\<close>

definition newClient ::
  "string \<Rightarrow> string \<Rightarrow> Auth option \<Rightarrow> Session option \<Rightarrow> bool \<Rightarrow> string \<Rightarrow> Header \<Rightarrow> Client" where
  "newClient clientID' addr' auth' session' editable' baseURL' header' =
     \<lparr>clientID = clientID', auth = auth', addr = addr', session = session', routes = [],
      data = \<lparr>buf = [], cap = 256, closed = False\<rparr>,
      editable = editable', baseURL = baseURL', header = header'\<rparr>"

text \<open>
  \<^verbatim>\<open>select { case c.data <- data: return true; default: return false }\<close>: the send case
  is taken when the buffer has room, the default otherwise; on a closed channel the send
  panics.
\<close>

definition send :: "Client \<Rightarrow> bytes \<Rightarrow> Panic + (Client \<times> bool)" where
  "send c d =
     (if closed (data c) then Inl SendOnClosedChannel
      else if length (buf (data c)) < cap (data c)
           then Inr (c\<lparr>data := (data c)\<lparr>buf := buf (data c) @ [d]\<rparr>\<rparr>, True)
           else Inr (c, False))"

text \<open>\<^verbatim>\<open>c.send(x)\<close> as a statement: \<^verbatim>\<open>listen\<close> drops the boolean.\<close>

definition sendW :: "World \<Rightarrow> bytes \<Rightarrow> Panic + World" where
  "sendW w d = (case send (client w) d of Inl p \<Rightarrow> Inl p | Inr (c, ok) \<Rightarrow> Inr (w\<lparr>client := c\<rparr>))"

definition quit :: "Client \<Rightarrow> Panic + Client" where
  "quit c = (if closed (data c) then Inl CloseOfClosedChannel
             else Inr (c\<lparr>data := (data c)\<lparr>closed := True\<rparr>\<rparr>))"

definition subscribe :: "World \<Rightarrow> string \<Rightarrow> World" where
  "subscribe w route =
     w\<lparr>client := (client w)\<lparr>routes := routes (client w) @ [route]\<rparr>,
       subscribeCh := subscribeCh w @ [(route, clientID (client w))]\<rparr>"

definition echo :: "Log \<Rightarrow> World \<Rightarrow> World" where
  "echo l w = w\<lparr>echoed := echoed w @ [l]\<rparr>"

definition forward :: "App \<Rightarrow> string \<Rightarrow> Session option \<Rightarrow> bytes \<Rightarrow> World \<Rightarrow> World" where
  "forward app cid s d w = w\<lparr>forwarded := forwarded w @ [(app, cid, s, d)]\<rparr>"

subsection \<open>The read loop\<close>

text \<open>
  \<^verbatim>\<open>refreshToken\<close>: \<^verbatim>\<open>c.auth != nil && c.session.token != nil\<close> dereferences the session
  once the auth provider is there.  The result is the client and the error returned.
\<close>

definition refreshToken :: "Env \<Rightarrow> Client \<Rightarrow> Panic + (Client \<times> string option)" where
  "refreshToken env c =
     (case auth c of
        None \<Rightarrow> Inr (c, None)
      | Some a \<Rightarrow>
          (case session c of
             None \<Rightarrow> Inl (NilDereference ''c.session'')
           | Some s \<Rightarrow>
               (case token s of
                  None \<Rightarrow> Inr (c, None)
                | Some tok \<Rightarrow>
                    (case ensureValidOAuth2Token env tok of
                       Inl err \<Rightarrow> Inr (c, Some err)
                     | Inr tok' \<Rightarrow> Inr (c\<lparr>session := Some (s\<lparr>token := tok'\<rparr>)\<rparr>, None)))))"

text \<open>
  Lines 115--116: \<^verbatim>\<open>if c.session != nil && c.auth != nil\<close>, the session is touched with
  the inactivity timeout; the result is the error of \<^verbatim>\<open>touch\<close>, if any.
\<close>

definition touchSession :: "Env \<Rightarrow> World \<Rightarrow> World \<times> string option" where
  "touchSession env w =
     (case session (client w) of
        None \<Rightarrow> (w, None)
      | Some s \<Rightarrow>
          (case auth (client w) of
             None \<Rightarrow> (w, None)
           | Some a \<Rightarrow>
               (case touch env s (InactivityTimeout a) of
                  (s', err) \<Rightarrow> (w\<lparr>client := (client w)\<lparr>session := Some s'\<rparr>\<rparr>, err))))"

text \<open>\<^verbatim>\<open>case patchMsgT\<close> (lines 127--130).\<close>

definition patchMsg :: "World \<Rightarrow> Msg \<Rightarrow> World" where
  "patchMsg w m =
     (if editable (client w) then w\<lparr>patched := patched w @ [(m_addr m, m_data m)]\<rparr> else w)"

text \<open>
  \<^verbatim>\<open>case queryMsgT\<close>.  Lines 139--142 build the body: the error of \<^verbatim>\<open>json.Unmarshal\<close> is
  dropped and \<^verbatim>\<open>argsMap\<close> is stored as it is after the call.
\<close>

definition queryBody :: "Env \<Rightarrow> Msg \<Rightarrow> Body" where
  "queryBody env m =
     (let argsMap = snd (jsonUnmarshal env (m_data m) (Some Map.empty))
      in Map.empty(''args'' \<mapsto> argsMap))"

definition queryMsg :: "Env \<Rightarrow> World \<Rightarrow> Msg \<Rightarrow> World" where
  "queryMsg env w m =
     (case getApp env (m_addr m) of
        None \<Rightarrow>
          echo [(''t'', ''query''), (''client'', addr (client w)), (''route'', m_addr m),
                (''error'', ''service unavailable'')] w
      | Some app \<Rightarrow>
          (case jsonMarshalBody env (queryBody env m) of
             None \<Rightarrow>
               echo [(''t'', ''query''), (''client'', addr (client w)), (''route'', m_addr m),
                     (''error'', ''failed marshaling body'')] w
           | Some d \<Rightarrow> forward app (clientID (client w)) (session (client w)) d w))"

text \<open>
  \<^verbatim>\<open>case watchMsgT\<close>, an app handles the route.  Lines 161--172: the boot message and the
  args decoded from it.
\<close>

definition bootArgs :: "Env \<Rightarrow> bytes \<Rightarrow> StrMap option" where
  "bootArgs env d =
     (let boot = (if length d > 0
                  then (case jsonMarshalBoot env \<lparr>Hash = d\<rparr> of Some j \<Rightarrow> j | None \<Rightarrow> emptyJSON env)
                  else emptyJSON env)
      in snd (jsonUnmarshal env boot (Some Map.empty)))"

text \<open>
  Lines 174--180: when the header cache has an entry for \<^verbatim>\<open>c.id\<close>,
  \<^verbatim>\<open>mergeHeaders(headersMap, *getRequestHeaders, *c.header)\<close> fills a new map, which goes
  into the body under "headers", and the entry is deleted.
\<close>

definition attachHeaders :: "World \<Rightarrow> Body \<Rightarrow> Body \<times> World" where
  "attachHeaders w body =
     (case clientIDToHeaders w (clientID (client w)) of
        Some getRequestHeaders \<Rightarrow>
          (let headersMap = mergeHeaders Map.empty getRequestHeaders (header (client w))
           in (body(''headers'' \<mapsto> Some headersMap),
               w\<lparr>clientIDToHeaders := (clientIDToHeaders w)(clientID (client w) := None)\<rparr>))
      | None \<Rightarrow> (body, w))"

text \<open>Lines 154--159: the second subscription, by the mode of the app.\<close>

definition subscribeMode :: "World \<Rightarrow> App \<Rightarrow> Panic + World" where
  "subscribeMode w app =
     (case mode app of
        unicastMode \<Rightarrow> Inr (subscribe w (''/'' @ clientID (client w)))
      | multicastMode \<Rightarrow>
          (case session (client w) of
             None \<Rightarrow> Inl (NilDereference ''c.session'')
           | Some s \<Rightarrow> Inr (subscribe w (''/'' @ subject s)))
      | otherMode \<Rightarrow> Inr w)"

definition watchApp :: "Env \<Rightarrow> World \<Rightarrow> Msg \<Rightarrow> App \<Rightarrow> Panic + World" where
  "watchApp env w m app =
     (case subscribeMode w app of
        Inl p \<Rightarrow> Inl p
      | Inr w1 \<Rightarrow>
          (case attachHeaders w1 (Map.empty(''args'' \<mapsto> bootArgs env (m_data m))) of
             (body, w2) \<Rightarrow>
               (case jsonMarshalBody env body of
                  None \<Rightarrow>
                    Inr (echo [(''t'', ''query''), (''client'', addr (client w2)),
                               (''route'', m_addr m), (''error'', ''failed marshaling body'')] w2)
                | Some d \<Rightarrow>
                    Inr (forward app (clientID (client w2)) (session (client w2)) d w2))))"

text \<open>
  \<^verbatim>\<open>case watchMsgT\<close>, no app handles the route (lines 191--202): the meta frame, then the
  page if there is one and it marshals, else \<^verbatim>\<open>notFoundMsg\<close>.
\<close>

definition watchPage :: "Env \<Rightarrow> World \<Rightarrow> Msg \<Rightarrow> Panic + World" where
  "watchPage env w m =
     (case session (client w) of
        None \<Rightarrow> Inl (NilDereference ''c.session'')
      | Some s \<Rightarrow>
          (case (case jsonMarshalOpsD env
                        \<lparr>U = [], M = Some \<lparr>Username = username s, Editor = editable (client w)\<rparr>\<rparr> of
                   Some headers \<Rightarrow> sendW w headers
                 | None \<Rightarrow> Inr w) of
             Inl p \<Rightarrow> Inl p
           | Inr w1 \<Rightarrow>
               (case (case siteAt env (m_addr m) of Some page \<Rightarrow> marshal page | None \<Rightarrow> None) of
                  Some d \<Rightarrow> sendW w1 d
                | None \<Rightarrow> sendW w1 notFoundMsg)))"

definition watchMsg :: "Env \<Rightarrow> World \<Rightarrow> Msg \<Rightarrow> Panic + World" where
  "watchMsg env w m =
     (let w1 = subscribe w (m_addr m)
      in case getApp env (m_addr m) of
           Some app \<Rightarrow> watchApp env w1 m app
         | None \<Rightarrow> watchPage env w1 m)"

text \<open>\<^verbatim>\<open>switch m.t\<close>, on the message with its address resolved.\<close>

definition dispatch :: "Env \<Rightarrow> World \<Rightarrow> Msg \<Rightarrow> Panic + World" where
  "dispatch env w m =
     (case m_t m of
        patchMsgT \<Rightarrow> Inr (patchMsg w m)
      | queryMsgT \<Rightarrow> Inr (queryMsg env w m)
      | watchMsgT \<Rightarrow> watchMsg env w m
      | otherMsgT \<Rightarrow> Inr w)"

text \<open>
  One iteration of the loop of \<^verbatim>\<open>listen\<close> on a frame that was read (lines 109--203).
\<close>

definition listenIter :: "Env \<Rightarrow> World \<Rightarrow> bytes \<Rightarrow> Panic + World" where
  "listenIter env w msg =
     (case refreshToken env (client w) of
        Inl p \<Rightarrow> Inl p
      | Inr (c1, err) \<Rightarrow>
          (let w1 = (case err of
                       None \<Rightarrow> w\<lparr>client := c1\<rparr>
                     | Some e \<Rightarrow>
                         echo [(''t'', ''refresh_oauth2_token''), (''client'', addr c1), (''err'', e)]
                           (w\<lparr>client := c1\<rparr>))
           in case touchSession env w1 of
                (w2, Some e) \<Rightarrow>
                  (case jsonMarshalOpsD env \<lparr>U = baseURL (client w2) @ ''_auth/logout'', M = None\<rparr> of
                     Some d \<Rightarrow> sendW w2 d
                   | None \<Rightarrow> Inr w2)
              | (w2, None) \<Rightarrow>
                  (let m = parseMsg env msg
                   in dispatch env w2 (m\<lparr>m_addr := resolveURL env (m_addr m) (baseURL (client w2))\<rparr>))))"

text \<open>
  \<^verbatim>\<open>listen\<close> over what \<^verbatim>\<open>ReadMessage\<close> returns: a frame, or an error (with its text when
  it is an unexpected close error, which is logged).  The error ends the loop, and the
  deferred function unsubscribes the client and closes the connection.  When nothing more
  is read the loop waits in \<^verbatim>\<open>ReadMessage\<close>.
\<close>

datatype Read = Frame bytes | ReadError "string option"

definition teardown :: "World \<Rightarrow> World" where
  "teardown w =
     w\<lparr>unsubscribeCh := unsubscribeCh w @ [clientID (client w)],
       conn := (conn w)\<lparr>connClosed := True\<rparr>\<rparr>"

fun listen :: "Env \<Rightarrow> World \<Rightarrow> Read list \<Rightarrow> Panic + World" where
  "listen env w [] = Inr w"
| "listen env w (ReadError None # rs) = Inr (teardown w)"
| "listen env w (ReadError (Some e) # rs) =
     Inr (teardown (echo [(''t'', ''socket_read''), (''client'', addr (client w)), (''err'', e)] w))"
| "listen env w (Frame msg # rs) =
     (case listenIter env w msg of Inl p \<Rightarrow> Inl p | Inr w' \<Rightarrow> listen env w' rs)"

subsection \<open>The write loop\<close>








subsection \<open>Notions the properties are stated with\<close>

text \<open>The entries of a header map; the nil map has none.\<close>

definition entries :: "Header \<Rightarrow> (string \<times> string list) list" where
  "entries h = (case h of None \<Rightarrow> [] | Some es \<Rightarrow> es)"

text \<open>The routes a watch of an app's route subscribes to after the route itself.\<close>

definition scopeRoutes :: "App \<Rightarrow> Client \<Rightarrow> string list" where
  "scopeRoutes app c =
     (case mode app of
        unicastMode \<Rightarrow> [''/'' @ clientID c]
      | multicastMode \<Rightarrow> (case session c of Some s \<Rightarrow> [''/'' @ subject s] | None \<Rightarrow> [])
      | otherMode \<Rightarrow> [])"

text \<open>The body a watch of an app's route forwards, before it is marshalled.\<close>

definition watchBody :: "Env \<Rightarrow> World \<Rightarrow> Msg \<Rightarrow> Body" where
  "watchBody env w m =
     (case clientIDToHeaders w (clientID (client w)) of
        Some cached \<Rightarrow>
          [''args'' \<mapsto> bootArgs env (m_data m),
           ''headers'' \<mapsto> Some (mergeHeaders Map.empty cached (header (client w)))]
      | None \<Rightarrow> [''args'' \<mapsto> bootArgs env (m_data m)])"

text \<open>
  \<^verbatim>\<open>send\<close> called with each message of a list in turn, nothing receiving in between:
  the client afterwards and the booleans returned.
\<close>

fun sends :: "Client \<Rightarrow> bytes list \<Rightarrow> Panic + (Client \<times> bool list)" where
  "sends c [] = Inr (c, [])"
| "sends c (d # ds) =
     (case send c d of
        Inl p \<Rightarrow> Inl p
      | Inr (c', ok) \<Rightarrow>
          (case sends c' ds of
             Inl p \<Rightarrow> Inl p
           | Inr (c'', oks) \<Rightarrow> Inr (c'', ok # oks)))"

subsection \<open>An example connection\<close>

text \<open>
  A client as \<^verbatim>\<open>newClient\<close> builds it, with a session and the captured header
  \<^verbatim>\<open>{A: ["1"]}\<close>; a world whose header cache holds \<^verbatim>\<open>{A: ["2"], B: ["3"]}\<close> for it; and
  collaborators that bind \<^verbatim>\<open>/app\<close> to a unicast app, \<^verbatim>\<open>/team\<close> to a multicast app and
  nothing else, with no page, and that read every frame as a watch of the route it holds.
  The examples below instantiate the theorems at them.
\<close>

definition exampleSession :: Session where
  "exampleSession = \<lparr>subject = ''alice-id'', username = ''alice'', token = None\<rparr>"

definition exampleClient :: Client where
  "exampleClient =
     newClient ''c1'' ''10.0.0.7:4242'' None (Some exampleSession) True ''/''
       (Some [(''A'', [''1''])])"

text \<open>
  The example's \<^verbatim>\<open>json.Marshal\<close> of a string map writes the bindings of the keys the
  examples use, in the encoder's sorted order; the strings of the examples need no
  escaping.
\<close>

fun renderPairs :: "string list \<Rightarrow> StrMap \<Rightarrow> string list" where
  "renderPairs [] m = []"
| "renderPairs (k # ks) m =
     (case m k of
        Some v \<Rightarrow> (''\"'' @ k @ ''\":\"'' @ v @ ''\"'') # renderPairs ks m
      | None \<Rightarrow> renderPairs ks m)"

definition renderMap :: "StrMap option \<Rightarrow> string" where
  "renderMap a =
     (case a of
        None \<Rightarrow> ''null''
      | Some m \<Rightarrow> ''{'' @ Join (renderPairs [''#'', ''A'', ''B'', ''a'', ''b''] m) '','' @ ''}'')"

definition renderBody :: "Body \<Rightarrow> string" where
  "renderBody b =
     ''{'' @ Join ((case b ''args'' of Some a \<Rightarrow> [''\"args\":'' @ renderMap a] | None \<Rightarrow> []) @
                  (case b ''headers'' of Some h \<Rightarrow> [''\"headers\":'' @ renderMap h] | None \<Rightarrow> []))
               '','' @ ''}''"

text \<open>
  The example's \<^verbatim>\<open>json.Unmarshal\<close> into a \<^verbatim>\<open>map[string]string\<close>, at the payloads the
  examples use.  An object of string fields is stored without error.  \<^verbatim>\<open>{"a":\<close> is not
  JSON: a syntax error is returned and the map is left as it was.  In
  \<^verbatim>\<open>{"a":"x","b":1}\<close> the field \<^verbatim>\<open>b\<close> is not a string: \<^verbatim>\<open>encoding/json\<close> goes on as
  best it can and returns an \<^verbatim>\<open>UnmarshalTypeError\<close> at the end, so the map holds \<^verbatim>\<open>a\<close>
  and the zero value for \<^verbatim>\<open>b\<close>.  No other payload is used; each gets the answer of the
  malformed one.
\<close>

definition exampleUnmarshal :: "bytes \<Rightarrow> StrMap option \<Rightarrow> string option \<times> StrMap option" where
  "exampleUnmarshal d target =
     (if d = ''{}'' then (None, target)
      else if d = ''{\"#\":\"top\"}'' then (None, map_option (\<lambda>t. t(''#'' \<mapsto> ''top'')) target)
      else if d = ''{\"a\":\"x\",\"b\":1}''
        then (Some ''json: cannot unmarshal number into Go value of type string'',
              map_option (\<lambda>t. t(''a'' \<mapsto> ''x'', ''b'' \<mapsto> [])) target)
      else (Some ''unexpected end of JSON input'', target))"

definition exampleEnv :: Env where
  "exampleEnv =
     \<lparr>ensureValidOAuth2Token = (\<lambda>tok. Inr (Some tok)),
      touch = (\<lambda>s timeout. (s, None)),
      parseMsg = (\<lambda>b. \<lparr>m_t = watchMsgT, m_addr = b, m_data = []\<rparr>),
      resolveURL = (\<lambda>a base. a),
      getApp = (\<lambda>a. if a = ''/app'' then Some (App ''/app'' unicastMode)
                     else if a = ''/team'' then Some (App ''/team'' multicastMode)
                     else None),
      siteAt = (\<lambda>a. None),
      jsonMarshalOpsD = (\<lambda>d. Some (case M d of
                                      None \<Rightarrow> ''{\"u\":\"'' @ U d @ ''\"}''
                                    | Some meta \<Rightarrow>
                                        ''{\"m\":{\"username\":\"'' @ Username meta @ ''\",\"editor\":''
                                          @ (if Editor meta then ''true'' else ''false'') @ ''}}'')),
      jsonMarshalBoot = (\<lambda>b. Some (''{\"#\":\"'' @ Hash b @ ''\"}'')),
      jsonMarshalBody = (\<lambda>b. Some (renderBody b)),
      jsonUnmarshal = exampleUnmarshal,
      emptyJSON = ''{}''\<rparr>"

definition exampleWorld :: World where
  "exampleWorld =
     \<lparr>client = exampleClient,
      clientIDToHeaders = [''c1'' \<mapsto> Some [(''A'', [''2'']), (''B'', [''3''])]],
      subscribeCh = [], unsubscribeCh = [], patched = [], forwarded = [], echoed = [],
      conn = \<lparr>written = [], connClosed = False\<rparr>\<rparr>"

subsection \<open>Properties of the definitions\<close>

lemma rangeJoin_lookup:
  "distinct (map fst es) \<Longrightarrow>
   rangeJoin m es k = (case map_of es k of Some v \<Rightarrow> Some (Join v '','') | None \<Rightarrow> m k)"
proof (induction es arbitrary: m)
  case Nil
  show ?case by simp
next
  case (Cons e es)
  obtain k' v' where e: "e = (k', v')" by (cases e)
  from Cons.prems e have d: "distinct (map fst es)" and nk: "k' \<notin> fst ` set es" by auto
  from nk have none: "map_of es k' = None" by (simp add: map_of_eq_None_iff)
  have "rangeJoin m (e # es) k = rangeJoin (m(k' \<mapsto> Join v' '','')) es k"
    using e by simp
  also have "\<dots> = (case map_of es k of Some v \<Rightarrow> Some (Join v '','')
                     | None \<Rightarrow> (m(k' \<mapsto> Join v' '','')) k)"
    by (rule Cons.IH [OF d])
  also have "\<dots> = (case map_of (e # es) k of Some v \<Rightarrow> Some (Join v '','') | None \<Rightarrow> m k)"
    using e none by (cases "k = k'") (simp_all split: option.splits)
  finally show ?case .
qed

lemma joinInto_lookup:
  "distinct (map fst (entries h)) \<Longrightarrow>
   joinInto m h k = (case map_of (entries h) k of Some v \<Rightarrow> Some (Join v '','') | None \<Rightarrow> m k)"
  by (cases h) (simp_all add: joinInto_def entries_def rangeJoin_lookup)

lemma mergeHeaders_lookup:
  assumes "distinct (map fst (entries h1))" and "distinct (map fst (entries h2))"
  shows "mergeHeaders headersMap h1 h2 k =
           (case map_of (entries h1) k of
              Some v \<Rightarrow> Some (Join v '','')
            | None \<Rightarrow>
                (case map_of (entries h2) k of
                   Some v \<Rightarrow> Some (Join v '','')
                 | None \<Rightarrow> headersMap k))"
  using assms by (simp add: mergeHeaders_def joinInto_lookup split: option.splits)

lemma subscribe_simps [simp]:
  "clientIDToHeaders (subscribe w r) = clientIDToHeaders w"
  "forwarded (subscribe w r) = forwarded w"
  "patched (subscribe w r) = patched w"
  "echoed (subscribe w r) = echoed w"
  "conn (subscribe w r) = conn w"
  "subscribeCh (subscribe w r) = subscribeCh w @ [(r, clientID (client w))]"
  "clientID (client (subscribe w r)) = clientID (client w)"
  "session (client (subscribe w r)) = session (client w)"
  "header (client (subscribe w r)) = header (client w)"
  "routes (client (subscribe w r)) = routes (client w) @ [r]"
  "data (client (subscribe w r)) = data (client w)"
  "editable (client (subscribe w r)) = editable (client w)"
  "addr (client (subscribe w r)) = addr (client w)"
  by (simp_all add: subscribe_def)

lemma forward_simps [simp]:
  "client (forward a c s d w) = client w"
  "clientIDToHeaders (forward a c s d w) = clientIDToHeaders w"
  "subscribeCh (forward a c s d w) = subscribeCh w"
  "unsubscribeCh (forward a c s d w) = unsubscribeCh w"
  "patched (forward a c s d w) = patched w"
  "echoed (forward a c s d w) = echoed w"
  "conn (forward a c s d w) = conn w"
  "forwarded (forward a c s d w) = forwarded w @ [(a, c, s, d)]"
  by (simp_all add: forward_def)

lemma echo_simps [simp]:
  "client (echo l w) = client w"
  "clientIDToHeaders (echo l w) = clientIDToHeaders w"
  "subscribeCh (echo l w) = subscribeCh w"
  "unsubscribeCh (echo l w) = unsubscribeCh w"
  "patched (echo l w) = patched w"
  "forwarded (echo l w) = forwarded w"
  "conn (echo l w) = conn w"
  "echoed (echo l w) = echoed w @ [l]"
  by (simp_all add: echo_def)

lemma scopeRoutes_routes [simp]: "scopeRoutes app (c\<lparr>routes := r\<rparr>) = scopeRoutes app c"
  by (cases "mode app") (simp_all add: scopeRoutes_def)

lemma subscribeMode_world:
  assumes "mode app = multicastMode \<longrightarrow> session (client w) \<noteq> None"
  shows "subscribeMode w app =
           Inr (w\<lparr>client := (client w)\<lparr>routes := routes (client w) @ scopeRoutes app (client w)\<rparr>,
                  subscribeCh := subscribeCh w @
                    map (\<lambda>r. (r, clientID (client w))) (scopeRoutes app (client w))\<rparr>)"
  using assms
  by (cases "mode app") (auto simp: subscribeMode_def scopeRoutes_def subscribe_def split: option.splits)

lemma watchMsg_app_world:
  assumes app: "getApp env (m_addr m) = Some app"
    and sess: "mode app = multicastMode \<longrightarrow> session (client w) \<noteq> None"
  shows "\<exists>w'. watchMsg env w m = Inr w' \<and>
           client w' = (client w)\<lparr>routes := routes (client w) @ m_addr m # scopeRoutes app (client w)\<rparr> \<and>
           subscribeCh w' = subscribeCh w @
               map (\<lambda>r. (r, clientID (client w))) (m_addr m # scopeRoutes app (client w)) \<and>
           clientIDToHeaders w' = (clientIDToHeaders w)(clientID (client w) := None) \<and>
           forwarded w' = forwarded w @
               (case jsonMarshalBody env (watchBody env w m) of
                  Some d \<Rightarrow> [(app, clientID (client w), session (client w), d)]
                | None \<Rightarrow> []) \<and>
           echoed w' = echoed w @
               (case jsonMarshalBody env (watchBody env w m) of
                  Some d \<Rightarrow> []
                | None \<Rightarrow> [[(''t'', ''query''), (''client'', addr (client w)), (''route'', m_addr m),
                            (''error'', ''failed marshaling body'')]]) \<and>
           patched w' = patched w \<and> unsubscribeCh w' = unsubscribeCh w \<and> conn w' = conn w"
proof -
  let ?w0 = "subscribe w (m_addr m)"
  let ?sc = "scopeRoutes app (client w)"
  let ?w1 = "?w0\<lparr>client := (client ?w0)\<lparr>routes := routes (client ?w0) @ scopeRoutes app (client ?w0)\<rparr>,
                  subscribeCh := subscribeCh ?w0 @
                    map (\<lambda>r. (r, clientID (client ?w0))) (scopeRoutes app (client ?w0))\<rparr>"
  from sess have "mode app = multicastMode \<longrightarrow> session (client ?w0) \<noteq> None" by simp
  then have w1: "subscribeMode ?w0 app = Inr ?w1" by (rule subscribeMode_world)
  have sc: "scopeRoutes app (client ?w0) = ?sc"
    by (cases "mode app") (simp_all add: scopeRoutes_def)
  obtain body w2 where att: "attachHeaders ?w1 [''args'' \<mapsto> bootArgs env (m_data m)] = (body, w2)"
    by (cases "attachHeaders ?w1 [''args'' \<mapsto> bootArgs env (m_data m)]")
  have body: "body = watchBody env w m"
    using att by (auto simp: attachHeaders_def watchBody_def Let_def split: option.splits)
  have w2: "w2 = ?w1\<lparr>clientIDToHeaders := (clientIDToHeaders w)(clientID (client w) := None)\<rparr>"
  proof (cases "clientIDToHeaders w (clientID (client w))")
    case None
    then have "(clientIDToHeaders w)(clientID (client w) := None) = clientIDToHeaders w"
      by (simp add: fun_upd_idem)
    then have "?w1\<lparr>clientIDToHeaders := (clientIDToHeaders w)(clientID (client w) := None)\<rparr> = ?w1"
      by (simp add: subscribe_def)
    moreover from None att have "w2 = ?w1" by (simp add: attachHeaders_def)
    ultimately show ?thesis by simp
  next
    case (Some cached)
    with att show ?thesis by (auto simp: attachHeaders_def Let_def)
  qed
  show ?thesis
  proof (cases "jsonMarshalBody env (watchBody env w m)")
    case None
    let ?w' = "echo [(''t'', ''query''), (''client'', addr (client w2)), (''route'', m_addr m),
                     (''error'', ''failed marshaling body'')] w2"
    have r: "watchMsg env w m = Inr ?w'"
      using None app w1 att body by (simp add: watchMsg_def watchApp_def)
    show ?thesis
      by (rule exI [of _ ?w']) (simp add: r None w2 sc subscribe_def)
  next
    case (Some d)
    let ?w' = "forward app (clientID (client w2)) (session (client w2)) d w2"
    have r: "watchMsg env w m = Inr ?w'"
      using Some app w1 att body by (simp add: watchMsg_def watchApp_def)
    show ?thesis
      by (rule exI [of _ ?w']) (simp add: r Some w2 sc subscribe_def)
  qed
qed

subsection \<open>Headers attached to a watch of an app's route\<close>

text \<open>
  Claim C1, as amended.  For every watch message whose resolved address is bound to an
  application and whose connection id has an entry in the Broker's header cache, the watch
  returns, the headers put into the forwarded body under "headers" are the union of the
  cached headers and the connection's own captured headers, each header's values joined
  with ",", in which the cached headers take precedence over the connection's own on key
  collision, and the cache entry is deleted.  (The body is forwarded when it marshals;
  a multicast app needs the session to be there.)
\<close>

theorem watch_attaches_headers_cached_first:
  assumes app: "getApp env (m_addr m) = Some app"
    and hit: "clientIDToHeaders w (clientID (client w)) = Some cached"
    and sess: "mode app = multicastMode \<longrightarrow> session (client w) \<noteq> None"
    and d1: "distinct (map fst (entries cached))"
    and d2: "distinct (map fst (entries (header (client w))))"
  shows "\<exists>w' headersMap.
           watchMsg env w m = Inr w' \<and>
           (\<forall>k. headersMap k =
                  (case map_of (entries cached) k of
                     Some v \<Rightarrow> Some (Join v '','')
                   | None \<Rightarrow>
                       (case map_of (entries (header (client w))) k of
                          Some v \<Rightarrow> Some (Join v '','')
                        | None \<Rightarrow> None))) \<and>
           clientIDToHeaders w' = (clientIDToHeaders w)(clientID (client w) := None) \<and>
           forwarded w' =
             forwarded w @
               (case jsonMarshalBody env
                       [''args'' \<mapsto> bootArgs env (m_data m), ''headers'' \<mapsto> Some headersMap] of
                  Some d \<Rightarrow> [(app, clientID (client w), session (client w), d)]
                | None \<Rightarrow> [])"
proof -
  let ?hm = "mergeHeaders Map.empty cached (header (client w))"
  have look: "\<forall>k. ?hm k =
                  (case map_of (entries cached) k of
                     Some v \<Rightarrow> Some (Join v '','')
                   | None \<Rightarrow>
                       (case map_of (entries (header (client w))) k of
                          Some v \<Rightarrow> Some (Join v '','')
                        | None \<Rightarrow> None))"
    using mergeHeaders_lookup [OF d1 d2, of Map.empty] by simp
  have body: "watchBody env w m = [''args'' \<mapsto> bootArgs env (m_data m), ''headers'' \<mapsto> Some ?hm]"
    using hit by (simp add: watchBody_def)
  from watchMsg_app_world [OF app sess] obtain w' where
    "watchMsg env w m = Inr w'"
    "clientIDToHeaders w' = (clientIDToHeaders w)(clientID (client w) := None)"
    "forwarded w' = forwarded w @
               (case jsonMarshalBody env (watchBody env w m) of
                  Some d \<Rightarrow> [(app, clientID (client w), session (client w), d)]
                | None \<Rightarrow> [])"
    by blast
  with look body show ?thesis
    by (intro exI [of _ w'] exI [of _ ?hm]) simp
qed

text \<open>
  The theorem at the example: the cache entry of \<^verbatim>\<open>c1\<close> is gone and one body with headers
  was forwarded.
\<close>

theorem watch_attaches_headers_cached_first_witness:
  "\<exists>w'. watchMsg exampleEnv exampleWorld \<lparr>m_t = watchMsgT, m_addr = ''/app'', m_data = []\<rparr> = Inr w' \<and>
        clientIDToHeaders w' ''c1'' = None \<and>
        forwarded w' =
          [(App ''/app'' unicastMode, ''c1'', Some exampleSession,
            ''{\"args\":{},\"headers\":{\"A\":\"2\",\"B\":\"3\"}}'')]"
proof -
  let ?m = "\<lparr>m_t = watchMsgT, m_addr = ''/app'', m_data = []\<rparr>"
  have app: "getApp exampleEnv (m_addr ?m) = Some (App ''/app'' unicastMode)"
    by (simp add: exampleEnv_def)
  have hit: "clientIDToHeaders exampleWorld (clientID (client exampleWorld))
               = Some (Some [(''A'', [''2'']), (''B'', [''3''])])"
    by (simp add: exampleWorld_def exampleClient_def newClient_def)
  have sess: "mode (App ''/app'' unicastMode) = multicastMode \<longrightarrow> session (client exampleWorld) \<noteq> None"
    by simp
  have d1: "distinct (map fst (entries (Some [(''A'', [''2'']), (''B'', [''3''])])))"
    by (simp add: entries_def)
  have d2: "distinct (map fst (entries (header (client exampleWorld))))"
    by (simp add: entries_def exampleWorld_def exampleClient_def newClient_def)
  from watch_attaches_headers_cached_first [OF app hit sess d1 d2]
  show ?thesis
    by (auto simp: exampleEnv_def exampleWorld_def exampleClient_def newClient_def entries_def
        bootArgs_def exampleUnmarshal_def renderBody_def renderMap_def)
qed

text \<open>
  Claim C1 as it was stated fails: the connection's own header is \<^verbatim>\<open>A: 1\<close>, the cached one
  is \<^verbatim>\<open>A: 2\<close>, and lines 174--180 attach \<^verbatim>\<open>A: 2\<close>.
\<close>

theorem watch_own_headers_first_counterexample:
  "header (client exampleWorld) = Some [(''A'', [''1''])] \<and>
   clientIDToHeaders exampleWorld (clientID (client exampleWorld))
     = Some (Some [(''A'', [''2'']), (''B'', [''3''])]) \<and>
   (case fst (attachHeaders exampleWorld [''args'' \<mapsto> Some Map.empty]) ''headers'' of
      Some (Some headersMap) \<Rightarrow> headersMap ''A''
    | _ \<Rightarrow> None) = Some ''2''"
  by (simp add: attachHeaders_def mergeHeaders_def joinInto_def exampleWorld_def exampleClient_def
      newClient_def)

subsection \<open>The header merge\<close>

lemma rangeJoin_dom: "dom (rangeJoin m es) = dom m \<union> fst ` set es"
proof (induction es arbitrary: m)
  case Nil
  show ?case by simp
next
  case (Cons e es)
  obtain k v where e: "e = (k, v)" by (cases e)
  have "dom (rangeJoin m (e # es)) = dom (m(k \<mapsto> Join v '','')) \<union> fst ` set es"
    unfolding e rangeJoin.simps by (rule Cons.IH)
  then show ?case using e by simp
qed

lemma joinInto_dom: "dom (joinInto m h) = dom m \<union> fst ` set (entries h)"
  by (cases h) (simp_all add: joinInto_def entries_def rangeJoin_dom)

text \<open>
  Claim C7.  \<^verbatim>\<open>mergeHeaders\<close> is a pure function of its two header-map inputs (and of the
  map it writes into, which its caller makes new): every multi-valued header is collapsed
  to a single string by joining its values with ","; the result is the union of both maps
  with the own-connection headers, the first header argument as the spec writes the call,
  overwriting the cached headers, the second, on key collision; concretely, own
  \<^verbatim>\<open>{A:"1"}\<close> merged with cached \<^verbatim>\<open>{A:"2", B:"3"}\<close> yields \<^verbatim>\<open>{A:"1", B:"3"}\<close>.
\<close>

theorem mergeHeaders_own_overwrites_cached:
  assumes "distinct (map fst (entries own))" and "distinct (map fst (entries cached))"
  shows "(\<forall>k. mergeHeaders headersMap own cached k =
              (case map_of (entries own) k of
                 Some v \<Rightarrow> Some (Join v '','')
               | None \<Rightarrow>
                   (case map_of (entries cached) k of
                      Some v \<Rightarrow> Some (Join v '','')
                    | None \<Rightarrow> headersMap k))) \<and>
         dom (mergeHeaders headersMap own cached) =
           dom headersMap \<union> fst ` set (entries own) \<union> fst ` set (entries cached) \<and>
         dom (mergeHeaders Map.empty own cached) =
           fst ` set (entries own) \<union> fst ` set (entries cached)"
  using assms
  by (auto simp: mergeHeaders_def joinInto_lookup joinInto_dom split: option.splits)

text \<open>
  The theorem at the header maps of the claim, own \<^verbatim>\<open>{A:"1"}\<close> and cached
  \<^verbatim>\<open>{A:"2", B:"3"}\<close>, and at a header with two values.
\<close>

theorem mergeHeaders_own_overwrites_cached_witness:
  "mergeHeaders Map.empty (Some [(''A'', [''1''])]) (Some [(''A'', [''2'']), (''B'', [''3''])])
     = [''A'' \<mapsto> ''1'', ''B'' \<mapsto> ''3''] \<and>
   mergeHeaders Map.empty (Some [(''Accept'', [''text/html'', ''*/*''])]) None ''Accept''
     = Some ''text/html,*/*''"
proof -
  have d1: "distinct (map fst (entries (Some [(''A'', [''1''])])))"
    by (simp add: entries_def)
  have d2: "distinct (map fst (entries (Some [(''A'', [''2'']), (''B'', [''3''])])))"
    by (simp add: entries_def)
  have d3: "distinct (map fst (entries (Some [(''Accept'', [''text/html'', ''*/*''])])))"
    by (simp add: entries_def)
  have d4: "distinct (map fst (entries None))"
    by (simp add: entries_def)
  have "mergeHeaders Map.empty (Some [(''A'', [''1''])]) (Some [(''A'', [''2'']), (''B'', [''3''])]) k
          = [''A'' \<mapsto> ''1'', ''B'' \<mapsto> ''3''] k" for k
    using mergeHeaders_own_overwrites_cached [OF d1 d2, of Map.empty]
    by (simp add: entries_def)
  then have "mergeHeaders Map.empty (Some [(''A'', [''1''])]) (Some [(''A'', [''2'']), (''B'', [''3''])])
          = [''A'' \<mapsto> ''1'', ''B'' \<mapsto> ''3'']"
    by (simp add: fun_eq_iff)
  moreover have "mergeHeaders Map.empty (Some [(''Accept'', [''text/html'', ''*/*''])]) None ''Accept''
          = Some ''text/html,*/*''"
    using mergeHeaders_own_overwrites_cached [OF d3 d4, of Map.empty]
    by (simp add: entries_def)
  ultimately show ?thesis by simp
qed

subsection \<open>Subscriptions of a watch\<close>

text \<open>
  Claim C4.  For every watch message whose resolved address is bound to an application, the
  engine subscribes the connection to the resolved route, and additionally to
  \<^verbatim>\<open>"/" + c.id\<close> when the application's mode is unicast, and to
  \<^verbatim>\<open>"/" + c.session.subject\<close> when the mode is multicast.
\<close>

theorem watch_app_subscriptions:
  assumes app: "getApp env (m_addr m) = Some app"
  shows "(mode app = unicastMode \<longrightarrow>
            (\<exists>w'. watchMsg env w m = Inr w' \<and>
                   routes (client w') = routes (client w) @ [m_addr m, ''/'' @ clientID (client w)] \<and>
                   subscribeCh w' = subscribeCh w @
                     [(m_addr m, clientID (client w)),
                      (''/'' @ clientID (client w), clientID (client w))])) \<and>
         (\<forall>s. mode app = multicastMode \<and> session (client w) = Some s \<longrightarrow>
            (\<exists>w'. watchMsg env w m = Inr w' \<and>
                   routes (client w') = routes (client w) @ [m_addr m, ''/'' @ subject s] \<and>
                   subscribeCh w' = subscribeCh w @
                     [(m_addr m, clientID (client w)), (''/'' @ subject s, clientID (client w))]))"
proof (intro conjI allI impI)
  assume u: "mode app = unicastMode"
  then have "mode app = multicastMode \<longrightarrow> session (client w) \<noteq> None" by simp
  from watchMsg_app_world [OF app this] u
  show "\<exists>w'. watchMsg env w m = Inr w' \<and>
             routes (client w') = routes (client w) @ [m_addr m, ''/'' @ clientID (client w)] \<and>
             subscribeCh w' = subscribeCh w @
               [(m_addr m, clientID (client w)), (''/'' @ clientID (client w), clientID (client w))]"
    by (auto simp: scopeRoutes_def)
next
  fix s
  assume ms: "mode app = multicastMode \<and> session (client w) = Some s"
  then have "mode app = multicastMode \<longrightarrow> session (client w) \<noteq> None" by simp
  from watchMsg_app_world [OF app this] ms
  show "\<exists>w'. watchMsg env w m = Inr w' \<and>
             routes (client w') = routes (client w) @ [m_addr m, ''/'' @ subject s] \<and>
             subscribeCh w' = subscribeCh w @
               [(m_addr m, clientID (client w)), (''/'' @ subject s, clientID (client w))]"
    by (auto simp: scopeRoutes_def)
qed

text \<open>The theorem at the unicast and at the multicast app of the example.\<close>

theorem watch_app_subscriptions_witness:
  "(\<exists>w'. watchMsg exampleEnv exampleWorld \<lparr>m_t = watchMsgT, m_addr = ''/app'', m_data = []\<rparr> = Inr w' \<and>
         routes (client w') = [''/app'', ''/c1''] \<and>
         subscribeCh w' = [(''/app'', ''c1''), (''/c1'', ''c1'')]) \<and>
   (\<exists>w'. watchMsg exampleEnv exampleWorld \<lparr>m_t = watchMsgT, m_addr = ''/team'', m_data = []\<rparr> = Inr w' \<and>
         routes (client w') = [''/team'', ''/alice-id''] \<and>
         subscribeCh w' = [(''/team'', ''c1''), (''/alice-id'', ''c1'')])"
proof -
  let ?m1 = "\<lparr>m_t = watchMsgT, m_addr = ''/app'', m_data = []\<rparr>"
  let ?m2 = "\<lparr>m_t = watchMsgT, m_addr = ''/team'', m_data = []\<rparr>"
  have app1: "getApp exampleEnv (m_addr ?m1) = Some (App ''/app'' unicastMode)"
    by (simp add: exampleEnv_def)
  have app2: "getApp exampleEnv (m_addr ?m2) = Some (App ''/team'' multicastMode)"
    by (simp add: exampleEnv_def)
  have s: "session (client exampleWorld) = Some exampleSession"
    by (simp add: exampleWorld_def exampleClient_def newClient_def)
  from watch_app_subscriptions [OF app1, of exampleWorld] watch_app_subscriptions [OF app2, of exampleWorld] s
  show ?thesis
    by (simp add: exampleWorld_def exampleClient_def newClient_def exampleSession_def)
qed

subsection \<open>What an iteration leaves alone\<close>

lemma send_keeps:
  assumes "send c d = Inr (c', ok)"
  shows "clientID c' = clientID c" and "session c' = session c" and "routes c' = routes c"
    and "auth c' = auth c" and "header c' = header c"
  using assms by (auto simp: send_def split: if_splits)

lemma sendW_keeps:
  assumes "sendW w d = Inr w'"
  shows "clientID (client w') = clientID (client w)"
    and "clientIDToHeaders w' = clientIDToHeaders w"
    and "forwarded w' = forwarded w"
  using assms by (auto simp: sendW_def split: sum.splits dest: send_keeps)

lemma watchPage_keeps:
  assumes "watchPage env w m = Inr w'"
  shows "clientID (client w') = clientID (client w)"
    and "clientIDToHeaders w' = clientIDToHeaders w"
proof -
  from assms obtain w1 d where
    w1: "w1 = w \<or> (\<exists>h. sendW w h = Inr w1)" and w': "sendW w1 d = Inr w'"
    by (auto simp: watchPage_def split: option.splits sum.splits)
  from w1 have "clientID (client w1) = clientID (client w) \<and> clientIDToHeaders w1 = clientIDToHeaders w"
    by (auto dest: sendW_keeps)
  with sendW_keeps [OF w'] show "clientID (client w') = clientID (client w)"
    and "clientIDToHeaders w' = clientIDToHeaders w"
    by simp_all
qed

lemma attachHeaders_keeps:
  assumes "attachHeaders w body = (body', w')"
  shows "client w' = client w \<and> (clientIDToHeaders w k = None \<longrightarrow> clientIDToHeaders w' k = None)"
  using assms by (auto simp: attachHeaders_def Let_def split: option.splits)

lemma subscribeMode_keeps:
  assumes "subscribeMode w app = Inr w'"
  shows "clientID (client w') = clientID (client w)"
    and "clientIDToHeaders w' = clientIDToHeaders w"
  using assms by (cases "mode app"; auto simp: subscribeMode_def split: option.splits)+

lemma watchApp_keeps:
  assumes "watchApp env w m app = Inr w'"
  shows "clientID (client w') = clientID (client w) \<and>
         (clientIDToHeaders w k = None \<longrightarrow> clientIDToHeaders w' k = None)"
proof -
  from assms obtain w1 body w2 where
    w1: "subscribeMode w app = Inr w1"
    and att: "attachHeaders w1 (Map.empty(''args'' \<mapsto> bootArgs env (m_data m))) = (body, w2)"
    and w': "client w' = client w2 \<and> clientIDToHeaders w' = clientIDToHeaders w2"
    by (auto simp: watchApp_def split: sum.splits prod.splits option.splits)
  from subscribeMode_keeps [OF w1] attachHeaders_keeps [OF att, of k] w'
  show ?thesis by simp
qed

lemma dispatch_keeps:
  assumes "dispatch env w m = Inr w'"
  shows "clientID (client w') = clientID (client w) \<and>
         (clientIDToHeaders w k = None \<longrightarrow> clientIDToHeaders w' k = None)"
proof (cases "m_t m")
    case patchMsgT
    with assms show ?thesis by (auto simp: dispatch_def patchMsg_def)
  next
    case queryMsgT
    with assms show ?thesis by (auto simp: dispatch_def queryMsg_def split: option.splits)
  next
    case watchMsgT
    with assms have "watchMsg env w m = Inr w'" by (simp add: dispatch_def)
    then show ?thesis
      using watchApp_keeps [where env = env and w = "subscribe w (m_addr m)" and m = m and w' = w' and k = k]
        watchPage_keeps [where env = env and w = "subscribe w (m_addr m)" and m = m and w' = w']
      by (auto simp: watchMsg_def Let_def split: option.splits)
  next
    case otherMsgT
    with assms show ?thesis by (simp add: dispatch_def)
  qed

lemma refreshToken_keeps:
  assumes "refreshToken env c = Inr (c', err)"
  shows "clientID c' = clientID c"
  using assms by (auto simp: refreshToken_def split: option.splits sum.splits)

lemma touchSession_keeps:
  assumes "touchSession env w = (w', err)"
  shows "clientID (client w') = clientID (client w)" and "clientIDToHeaders w' = clientIDToHeaders w"
  using assms by (auto simp: touchSession_def split: option.splits prod.splits)

lemma listenIter_keeps:
  assumes "listenIter env w msg = Inr w'"
  shows "clientID (client w') = clientID (client w) \<and>
         (clientIDToHeaders w k = None \<longrightarrow> clientIDToHeaders w' k = None)"
proof -
  from assms obtain c1 err where r: "refreshToken env (client w) = Inr (c1, err)"
    by (auto simp: listenIter_def split: sum.splits)
  define w1 where "w1 = (case err of
                       None \<Rightarrow> w\<lparr>client := c1\<rparr>
                     | Some e \<Rightarrow>
                         echo [(''t'', ''refresh_oauth2_token''), (''client'', addr c1), (''err'', e)]
                           (w\<lparr>client := c1\<rparr>))"
  have k1: "clientID (client w1) = clientID (client w)" "clientIDToHeaders w1 = clientIDToHeaders w"
    using refreshToken_keeps [OF r] by (auto simp: w1_def split: option.splits)
  obtain w2 terr where t: "touchSession env w1 = (w2, terr)" by (cases "touchSession env w1")
  note k2 = touchSession_keeps [OF t]
  have "clientID (client w') = clientID (client w2) \<and>
        (clientIDToHeaders w2 k = None \<longrightarrow> clientIDToHeaders w' k = None)"
  proof (cases terr)
    case None
    with assms r t have "dispatch env w2
        ((parseMsg env msg)\<lparr>m_addr := resolveURL env (m_addr (parseMsg env msg)) (baseURL (client w2))\<rparr>) = Inr w'"
      by (simp add: listenIter_def w1_def Let_def)
    from dispatch_keeps [OF this, of k] show ?thesis by simp
  next
    case (Some e)
    with assms r t have "w' = w2 \<or> (\<exists>d. sendW w2 d = Inr w')"
      by (auto simp: listenIter_def w1_def Let_def split: option.splits)
    then show ?thesis by (auto dest: sendW_keeps)
  qed
  with k1 k2 show ?thesis by simp
qed

lemma listen_keeps:
  assumes "listen env w rs = Inr w'"
  shows "clientID (client w') = clientID (client w) \<and>
         (clientIDToHeaders w k = None \<longrightarrow> clientIDToHeaders w' k = None)"
  using assms
proof (induction env w rs rule: listen.induct)
  case (1 env w)
  then show ?case by simp
next
  case (2 env w rs)
  then show ?case by (auto simp: teardown_def)
next
  case (3 env w e rs)
  then show ?case by (auto simp: teardown_def)
next
  case (4 env w msg rs)
  from "4.prems" obtain w1 where w1: "listenIter env w msg = Inr w1" and rest: "listen env w1 rs = Inr w'"
    by (auto split: sum.splits)
  from "4.IH" [OF w1 rest] listenIter_keeps [OF w1, of k] show ?case by simp
qed

lemma watchBody_miss:
  "clientIDToHeaders w (clientID (client w)) = None \<Longrightarrow>
   watchBody env w m = [''args'' \<mapsto> bootArgs env (m_data m)]"
  by (simp add: watchBody_def)

subsection \<open>Cached headers are delivered once\<close>

text \<open>
  Claim C2.  For every connection, cached headers are attached to at most one forwarded
  watch body: the first watch of an application-bound address that finds a header-cache
  entry for the connection id deletes that entry, so a later watch of an application
  address from the same connection (the next one, or one after any further frames the read
  loop handles) forwards a body with "args" only, no headers attached.
\<close>

theorem cached_headers_forwarded_once:
  assumes app1: "getApp env1 (m_addr m1) = Some app1"
    and sess1: "mode app1 = multicastMode \<longrightarrow> session (client w) \<noteq> None"
    and hit: "clientIDToHeaders w (clientID (client w)) = Some cached"
  shows "\<exists>w1. watchMsg env1 w m1 = Inr w1 \<and>
           clientIDToHeaders w1 (clientID (client w)) = None \<and>
           (\<forall>envs rs wm env2 m2 app2.
              listen envs w1 rs = Inr wm \<and> getApp env2 (m_addr m2) = Some app2 \<and>
              (mode app2 = multicastMode \<longrightarrow> session (client wm) \<noteq> None) \<longrightarrow>
              (\<exists>w2. watchMsg env2 wm m2 = Inr w2 \<and>
                    forwarded w2 = forwarded wm @
                      (case jsonMarshalBody env2 [''args'' \<mapsto> bootArgs env2 (m_data m2)] of
                         Some d \<Rightarrow> [(app2, clientID (client w), session (client wm), d)]
                       | None \<Rightarrow> [])))"
proof -
  from watchMsg_app_world [OF app1 sess1] obtain w1 where
    w1: "watchMsg env1 w m1 = Inr w1"
    and c1: "client w1 = (client w)\<lparr>routes := routes (client w) @ m_addr m1 # scopeRoutes app1 (client w)\<rparr>"
    and h1: "clientIDToHeaders w1 = (clientIDToHeaders w)(clientID (client w) := None)"
    by blast
  from h1 have miss1: "clientIDToHeaders w1 (clientID (client w)) = None" by simp
  have later: "\<exists>w2. watchMsg env2 wm m2 = Inr w2 \<and>
                    forwarded w2 = forwarded wm @
                      (case jsonMarshalBody env2 [''args'' \<mapsto> bootArgs env2 (m_data m2)] of
                         Some d \<Rightarrow> [(app2, clientID (client w), session (client wm), d)]
                       | None \<Rightarrow> [])"
    if run: "listen envs w1 rs = Inr wm" and app2: "getApp env2 (m_addr m2) = Some app2"
      and sess2: "mode app2 = multicastMode \<longrightarrow> session (client wm) \<noteq> None"
    for envs rs wm env2 m2 app2
  proof -
    from listen_keeps [OF run, of "clientID (client w)"] miss1 c1
    have idm: "clientID (client wm) = clientID (client w)"
      and missm: "clientIDToHeaders wm (clientID (client wm)) = None"
      by simp_all
    from watchMsg_app_world [OF app2 sess2] watchBody_miss [OF missm, of env2 m2] idm
    show ?thesis by (auto split: option.splits)
  qed
  from w1 miss1 later show ?thesis by blast
qed


text \<open>The theorem at the example: the route \<^verbatim>\<open>/app\<close> watched twice in a row.\<close>

theorem cached_headers_forwarded_once_witness:
  "\<exists>w1 w2. watchMsg exampleEnv exampleWorld \<lparr>m_t = watchMsgT, m_addr = ''/app'', m_data = []\<rparr> = Inr w1 \<and>
     clientIDToHeaders w1 ''c1'' = None \<and>
     watchMsg exampleEnv w1 \<lparr>m_t = watchMsgT, m_addr = ''/app'', m_data = []\<rparr> = Inr w2 \<and>
     forwarded w2 = forwarded w1 @
        [(App ''/app'' unicastMode, ''c1'', session (client w1), ''{\"args\":{}}'')]"
proof -
  let ?m = "\<lparr>m_t = watchMsgT, m_addr = ''/app'', m_data = []\<rparr>"
  have app: "getApp exampleEnv (m_addr ?m) = Some (App ''/app'' unicastMode)"
    by (simp add: exampleEnv_def)
  have sess: "mode (App ''/app'' unicastMode) = multicastMode \<longrightarrow> session (client exampleWorld) \<noteq> None"
    by simp
  have hit: "clientIDToHeaders exampleWorld (clientID (client exampleWorld))
               = Some (Some [(''A'', [''2'']), (''B'', [''3''])])"
    by (simp add: exampleWorld_def exampleClient_def newClient_def)
  have cid: "clientID (client exampleWorld) = ''c1''"
    by (simp add: exampleWorld_def exampleClient_def newClient_def)
  from cached_headers_forwarded_once [OF app sess hit] obtain w1 where
    w1: "watchMsg exampleEnv exampleWorld ?m = Inr w1"
    and miss: "clientIDToHeaders w1 (clientID (client exampleWorld)) = None"
    and later: "\<And>envs rs wm env2 m2 app2.
              listen envs w1 rs = Inr wm \<and> getApp env2 (m_addr m2) = Some app2 \<and>
              (mode app2 = multicastMode \<longrightarrow> session (client wm) \<noteq> None) \<Longrightarrow>
              (\<exists>w2. watchMsg env2 wm m2 = Inr w2 \<and>
                    forwarded w2 = forwarded wm @
                      (case jsonMarshalBody env2 [''args'' \<mapsto> bootArgs env2 (m_data m2)] of
                         Some d \<Rightarrow> [(app2, clientID (client exampleWorld), session (client wm), d)]
                       | None \<Rightarrow> []))"
    by blast
  have "listen exampleEnv w1 [] = Inr w1 \<and> getApp exampleEnv (m_addr ?m) = Some (App ''/app'' unicastMode) \<and>
        (mode (App ''/app'' unicastMode) = multicastMode \<longrightarrow> session (client w1) \<noteq> None)"
    using app by simp
  from later [OF this] obtain w2 where
    "watchMsg exampleEnv w1 ?m = Inr w2"
    "forwarded w2 = forwarded w1 @
        [(App ''/app'' unicastMode, ''c1'', session (client w1), ''{\"args\":{}}'')]"
    by (auto simp: cid exampleEnv_def bootArgs_def exampleUnmarshal_def renderBody_def renderMap_def)
  with w1 miss cid show ?thesis by auto
qed

subsection \<open>A watch of a route with no app and no page\<close>

lemma send_open:
  assumes "\<not> closed (data c)"
  shows "\<exists>c' ok. send c d = Inr (c', ok) \<and> \<not> closed (data c') \<and> cap (data c') = cap (data c) \<and>
           routes c' = routes c \<and> session c' = session c \<and>
           ok = (length (buf (data c)) < cap (data c)) \<and>
           buf (data c') = (if length (buf (data c)) < cap (data c) then buf (data c) @ [d]
                            else buf (data c))"
  using assms by (cases "length (buf (data c)) < cap (data c)") (auto simp: send_def)

text \<open>
  Claim C3.  For every watch message whose resolved address has no bound application and
  no page, the engine subscribes the connection to the route anyway, and the client is sent
  (two calls of \<^verbatim>\<open>send\<close>, on a session that is there and a queue that is open) exactly
  one metadata frame, the marshalled \<^verbatim>\<open>OpsD\<close> with the session's username and the
  connection's editable flag, followed by exactly one not-found frame
  \<^verbatim>\<open>{"e":"not_found"}\<close>, in that order, and nothing else: with room for two in the queue,
  these two frames are appended to it, and nothing else of the world changes.
\<close>

theorem watch_unbound_meta_then_not_found:
  assumes noapp: "getApp env (m_addr m) = None"
    and nopage: "siteAt env (m_addr m) = None"
    and sess: "session (client w) = Some s"
    and meta: "jsonMarshalOpsD env
                 \<lparr>U = [], M = Some \<lparr>Username = username s, Editor = editable (client w)\<rparr>\<rparr> = Some headers"
    and opn: "\<not> closed (data (client w))"
  shows "\<exists>c1 ok1 c2 ok2.
           send ((client w)\<lparr>routes := routes (client w) @ [m_addr m]\<rparr>) headers = Inr (c1, ok1) \<and>
           send c1 notFoundMsg = Inr (c2, ok2) \<and>
           watchMsg env w m =
             Inr (w\<lparr>client := c2, subscribeCh := subscribeCh w @ [(m_addr m, clientID (client w))]\<rparr>) \<and>
           routes c2 = routes (client w) @ [m_addr m] \<and>
           (length (buf (data (client w))) + 2 \<le> cap (data (client w)) \<longrightarrow>
              buf (data c2) = buf (data (client w)) @ [headers, notFoundMsg])"
proof -
  let ?c0 = "(client w)\<lparr>routes := routes (client w) @ [m_addr m]\<rparr>"
  let ?w0 = "subscribe w (m_addr m)"
  from opn have "\<not> closed (data ?c0)" by simp
  from send_open [OF this, of headers] obtain c1 ok1 where s1: "send ?c0 headers = Inr (c1, ok1)"
    and o1: "\<not> closed (data c1)" and r1: "routes c1 = routes (client w) @ [m_addr m]"
    and b1: "length (buf (data (client w))) < cap (data (client w)) \<longrightarrow>
               buf (data c1) = buf (data (client w)) @ [headers]"
    and cap1: "cap (data c1) = cap (data (client w))"
    by auto
  from send_open [OF o1, of notFoundMsg] obtain c2 ok2 where s2: "send c1 notFoundMsg = Inr (c2, ok2)"
    and r2: "routes c2 = routes c1"
    and b2: "length (buf (data c1)) < cap (data c1) \<longrightarrow> buf (data c2) = buf (data c1) @ [notFoundMsg]"
    by auto
  have c0: "client ?w0 = ?c0" by (simp add: subscribe_def)
  have "watchMsg env w m = watchPage env ?w0 m"
    using noapp by (simp add: watchMsg_def)
  also have "\<dots> = Inr (?w0\<lparr>client := c2\<rparr>)"
    using nopage sess meta s1 s2 c0 by (simp add: watchPage_def sendW_def)
  also have "?w0\<lparr>client := c2\<rparr> =
      w\<lparr>client := c2, subscribeCh := subscribeCh w @ [(m_addr m, clientID (client w))]\<rparr>"
    by (simp add: subscribe_def)
  finally have res: "watchMsg env w m =
      Inr (w\<lparr>client := c2, subscribeCh := subscribeCh w @ [(m_addr m, clientID (client w))]\<rparr>)" .
  have room: "length (buf (data (client w))) + 2 \<le> cap (data (client w)) \<longrightarrow>
              buf (data c2) = buf (data (client w)) @ [headers, notFoundMsg]"
    using b1 b2 cap1 by auto
  from s1 s2 res r1 r2 room show ?thesis by auto
qed

text \<open>The theorem at the example and the route \<^verbatim>\<open>/nowhere\<close>.\<close>

theorem watch_unbound_meta_then_not_found_witness:
  "watchMsg exampleEnv exampleWorld \<lparr>m_t = watchMsgT, m_addr = ''/nowhere'', m_data = []\<rparr> =
     Inr (exampleWorld
           \<lparr>client := exampleClient
              \<lparr>routes := [''/nowhere''],
               data := \<lparr>buf = [''{\"m\":{\"username\":\"alice\",\"editor\":true}}'', ''{\"e\":\"not_found\"}''],
                        cap = 256, closed = False\<rparr>\<rparr>,
            subscribeCh := [(''/nowhere'', ''c1'')]\<rparr>)"
proof -
  let ?m = "\<lparr>m_t = watchMsgT, m_addr = ''/nowhere'', m_data = []\<rparr>"
  have noapp: "getApp exampleEnv (m_addr ?m) = None" by (simp add: exampleEnv_def)
  have nopage: "siteAt exampleEnv (m_addr ?m) = None" by (simp add: exampleEnv_def)
  have sess: "session (client exampleWorld) = Some exampleSession"
    by (simp add: exampleWorld_def exampleClient_def newClient_def)
  have meta: "jsonMarshalOpsD exampleEnv
      \<lparr>U = [], M = Some \<lparr>Username = username exampleSession, Editor = editable (client exampleWorld)\<rparr>\<rparr>
      = Some ''{\"m\":{\"username\":\"alice\",\"editor\":true}}''"
    by (simp add: exampleEnv_def exampleSession_def exampleWorld_def exampleClient_def newClient_def)
  have opn: "\<not> closed (data (client exampleWorld))"
    by (simp add: exampleWorld_def exampleClient_def newClient_def)
  from watch_unbound_meta_then_not_found [OF noapp nopage sess meta opn]
  show ?thesis
    by (auto simp: send_def notFoundMsg_def exampleWorld_def exampleClient_def newClient_def)
qed

subsection \<open>The outbound queue\<close>

lemma sends_open:
  assumes "\<not> closed (data c)"
  shows "\<exists>c'. sends c ms =
                Inr (c', replicate (min (cap (data c) - length (buf (data c))) (length ms)) True @
                         replicate (length ms - (cap (data c) - length (buf (data c)))) False) \<and>
              buf (data c') = buf (data c) @ take (cap (data c) - length (buf (data c))) ms \<and>
              cap (data c') = cap (data c) \<and> \<not> closed (data c')"
  using assms
proof (induction ms arbitrary: c)
  case Nil
  then show ?case by simp
next
  case (Cons d ds)
  let ?room = "cap (data c) - length (buf (data c))"
  show ?case
  proof (cases "length (buf (data c)) < cap (data c)")
    case True
    let ?c1 = "c\<lparr>data := (data c)\<lparr>buf := buf (data c) @ [d]\<rparr>\<rparr>"
    from True Cons.prems have s: "send c d = Inr (?c1, True)" by (simp add: send_def)
    from Cons.prems have o1: "\<not> closed (data ?c1)" by simp
    from True obtain r where r: "?room = Suc r" by (cases ?room) auto
    then have r1: "cap (data ?c1) - length (buf (data ?c1)) = r" by simp
    from Cons.IH [OF o1] obtain c' where
      "sends ?c1 ds = Inr (c', replicate (min r (length ds)) True @ replicate (length ds - r) False)"
      "buf (data c') = buf (data ?c1) @ take r ds"
      "cap (data c') = cap (data ?c1)" "\<not> closed (data c')"
      unfolding r1 by blast
    with s r show ?thesis by simp
  next
    case False
    with Cons.prems have s: "send c d = Inr (c, False)" by (simp add: send_def)
    from False have z: "?room = 0" by simp
    from Cons.IH [OF Cons.prems] obtain c' where
      "sends c ds = Inr (c', replicate (min ?room (length ds)) True @ replicate (length ds - ?room) False)"
      "buf (data c') = buf (data c) @ take ?room ds"
      "cap (data c') = cap (data c)" "\<not> closed (data c')"
      by blast
    with s z show ?thesis by simp
  qed
qed

text \<open>
  Claim C5.  \<^verbatim>\<open>send\<close> is non-blocking against the fixed-capacity (256) outbound queue:
  each call (on a queue that is not closed) either enqueues the message and returns true,
  or, when the queue is full, drops the message and returns false; in particular,
  enqueueing 300 messages onto the initially empty, undrained queue of a new client yields
  exactly 256 accepted (true) and 44 dropped (false), the first 256 being queued.  \<^verbatim>\<open>send\<close>
  is a function with a value at every argument: no call waits.
\<close>

theorem send_never_blocks_bounded_queue:
  assumes len: "length ms = 300"
  shows "(\<forall>c d. \<not> closed (data c) \<longrightarrow>
            send c d =
              (if length (buf (data c)) < cap (data c)
               then Inr (c\<lparr>data := (data c)\<lparr>buf := buf (data c) @ [d]\<rparr>\<rparr>, True)
               else Inr (c, False))) \<and>
         (\<exists>c'. sends (newClient cid a au se ed bu he) ms =
                  Inr (c', replicate 256 True @ replicate 44 False) \<and>
               buf (data c') = take 256 ms)"
proof -
  let ?c = "newClient cid a au se ed bu he"
  have opn: "\<not> closed (data ?c)" by (simp add: newClient_def)
  have room: "cap (data ?c) = 256" by (simp add: newClient_def)
  have b: "buf (data ?c) = []" by (simp add: newClient_def)
  from sends_open [OF opn, of ms] len
  have "\<exists>c'. sends ?c ms = Inr (c', replicate 256 True @ replicate 44 False) \<and>
             buf (data c') = take 256 ms"
    by (auto simp: room b)
  then show ?thesis by (simp add: send_def)
qed

text \<open>The theorem at 300 copies of one message, sent to the example client.\<close>

theorem send_never_blocks_bounded_queue_witness:
  "\<exists>c'. sends exampleClient (replicate 300 ''x'') = Inr (c', replicate 256 True @ replicate 44 False) \<and>
        buf (data c') = replicate 256 ''x''"
proof -
  have len: "length (replicate 300 ''x'') = 300" by simp
  from send_never_blocks_bounded_queue [OF len,
      of "''c1''" "''10.0.0.7:4242''" None "Some exampleSession" True "''/''" "Some [(''A'', [''1''])]"]
  show ?thesis by (simp add: exampleClient_def)
qed

subsection \<open>The write loop coalesces\<close>





subsection \<open>An expired session\<close>

lemma refreshToken_session:
  assumes "session c = Some s"
  shows "\<exists>c1 err s1. refreshToken env c = Inr (c1, err) \<and> session c1 = Some s1 \<and>
           auth c1 = auth c \<and> data c1 = data c \<and> baseURL c1 = baseURL c \<and>
           routes c1 = routes c \<and> addr c1 = addr c"
  using assms by (auto simp: refreshToken_def split: option.splits sum.splits)

text \<open>
  Claim C8.  For every inbound frame on a connection that has both a Session and an auth
  provider, if the session touch with the configured inactivity timeout reports expiry, the
  engine sends the client a logout directive frame, the marshalled
  \<^verbatim>\<open>OpsD{U: c.baseURL + "_auth/logout"}\<close>, and skips the rest of that iteration: the message
  is not decoded or dispatched to the Broker.  Below \<open>c1\<close> is the client after the token
  refresh that precedes the touch; the world after the iteration differs from the one
  before in the client (its session as refreshed and touched, its queue with the frame
  appended when it has room) and the log line of a failed refresh, and in nothing else.
\<close>

theorem expired_session_sends_logout:
  assumes au: "auth (client w) = Some a"
    and se: "session (client w) = Some s"
    and rt: "refreshToken env (client w) = Inr (c1, err)"
    and s1: "session c1 = Some s1"
    and ex: "touch env s1 (InactivityTimeout a) = (s2, Some e)"
    and mar: "jsonMarshalOpsD env \<lparr>U = baseURL (client w) @ ''_auth/logout'', M = None\<rparr> = Some d"
    and opn: "\<not> closed (data (client w))"
  shows "\<exists>c' ok.
           send (c1\<lparr>session := Some s2\<rparr>) d = Inr (c', ok) \<and>
           listenIter env w msg =
             Inr (w\<lparr>client := c',
                    echoed := echoed w @
                      (case err of
                         None \<Rightarrow> []
                       | Some x \<Rightarrow> [[(''t'', ''refresh_oauth2_token''), (''client'', addr (client w)),
                                    (''err'', x)]])\<rparr>) \<and>
           buf (data c') =
             (if length (buf (data (client w))) < cap (data (client w))
              then buf (data (client w)) @ [d] else buf (data (client w))) \<and>
           routes c' = routes (client w) \<and> session c' = Some s2"
proof -
  from refreshToken_session [OF se, of env] rt
  have f: "auth c1 = auth (client w)" "data c1 = data (client w)" "baseURL c1 = baseURL (client w)"
    "routes c1 = routes (client w)" "addr c1 = addr (client w)"
    by auto
  let ?c2 = "c1\<lparr>session := Some s2\<rparr>"
  from opn f have "\<not> closed (data ?c2)" by simp
  from send_open [OF this, of d] f obtain c' ok where
    sd: "send ?c2 d = Inr (c', ok)"
    and b: "buf (data c') =
             (if length (buf (data (client w))) < cap (data (client w))
              then buf (data (client w)) @ [d] else buf (data (client w)))"
    and r: "routes c' = routes (client w)" and s': "session c' = Some s2"
    by auto
  define w1 where "w1 = (case err of
                       None \<Rightarrow> w\<lparr>client := c1\<rparr>
                     | Some x \<Rightarrow>
                         echo [(''t'', ''refresh_oauth2_token''), (''client'', addr c1), (''err'', x)]
                           (w\<lparr>client := c1\<rparr>))"
  have w1c: "client w1 = c1" by (simp add: w1_def split: option.splits)
  have t: "touchSession env w1 = (w1\<lparr>client := ?c2\<rparr>, Some e)"
    using s1 au f ex by (simp add: touchSession_def w1c)
  have "listenIter env w msg = sendW (w1\<lparr>client := ?c2\<rparr>) d"
    using rt t mar f by (simp add: listenIter_def w1_def [symmetric])
  also have "\<dots> = Inr (w1\<lparr>client := c'\<rparr>)"
    using sd by (simp add: sendW_def)
  also have "w1\<lparr>client := c'\<rparr> =
             w\<lparr>client := c',
               echoed := echoed w @
                 (case err of
                    None \<Rightarrow> []
                  | Some x \<Rightarrow> [[(''t'', ''refresh_oauth2_token''), (''client'', addr (client w)),
                               (''err'', x)]])\<rparr>"
    using f by (simp add: w1_def echo_def split: option.splits)
  finally show ?thesis using sd b r s' by blast
qed

text \<open>The theorem at the example client with an auth provider and a touch that reports expiry.\<close>

theorem expired_session_sends_logout_witness:
  "listenIter (exampleEnv\<lparr>touch := (\<lambda>s timeout. (s, Some ''session expired''))\<rparr>)
     (exampleWorld\<lparr>client := exampleClient\<lparr>auth := Some \<lparr>InactivityTimeout = 1800\<rparr>\<rparr>\<rparr>) ''/app''
   = Inr (exampleWorld\<lparr>client := exampleClient
            \<lparr>auth := Some \<lparr>InactivityTimeout = 1800\<rparr>,
             data := \<lparr>buf = [''{\"u\":\"/_auth/logout\"}''], cap = 256, closed = False\<rparr>\<rparr>\<rparr>)"
proof -
  let ?env = "exampleEnv\<lparr>touch := (\<lambda>s timeout. (s, Some ''session expired''))\<rparr>"
  let ?c = "exampleClient\<lparr>auth := Some \<lparr>InactivityTimeout = 1800\<rparr>\<rparr>"
  let ?w = "exampleWorld\<lparr>client := ?c\<rparr>"
  have au: "auth (client ?w) = Some \<lparr>InactivityTimeout = 1800\<rparr>" by simp
  have se: "session (client ?w) = Some exampleSession"
    by (simp add: exampleClient_def newClient_def)
  have rt: "refreshToken ?env (client ?w) = Inr (?c, None)"
    by (simp add: refreshToken_def exampleClient_def newClient_def exampleSession_def)
  have s1: "session ?c = Some exampleSession" by (simp add: exampleClient_def newClient_def)
  have ex: "touch ?env exampleSession (InactivityTimeout \<lparr>InactivityTimeout = 1800\<rparr>)
              = (exampleSession, Some ''session expired'')"
    by simp
  have mar: "jsonMarshalOpsD ?env \<lparr>U = baseURL (client ?w) @ ''_auth/logout'', M = None\<rparr>
               = Some ''{\"u\":\"/_auth/logout\"}''"
    by (simp add: exampleEnv_def exampleClient_def newClient_def)
  have opn: "\<not> closed (data (client ?w))" by (simp add: exampleClient_def newClient_def)
  from expired_session_sends_logout [OF au se rt s1 ex mar opn, of "''/app''"]
  show ?thesis
    by (auto simp: send_def exampleWorld_def exampleClient_def newClient_def)
qed


subsection \<open>The session of a watch\<close>

lemma watchMsg_with_session:
  assumes "session (client w) = Some s"
  shows "watchMsg env w m \<noteq> Inl (NilDereference x)"
proof (cases "getApp env (m_addr m)")
  case None
  have "watchPage env w' m \<noteq> Inl (NilDereference x)" if "session (client w') = Some s" for w'
    using that
    by (auto simp: watchPage_def sendW_def send_def split: option.splits sum.splits if_splits)
  from this [of "subscribe w (m_addr m)"] None assms show ?thesis
    by (simp add: watchMsg_def)
next
  case (Some app)
  from assms have "mode app = multicastMode \<longrightarrow> session (client w) \<noteq> None" by simp
  from watchMsg_app_world [OF Some this] show ?thesis by auto
qed

text \<open>
  Claim C10.  Watch dispatch dereferences the connection's Session without a nil guard: it
  reads \<^verbatim>\<open>session.subject\<close> when the bound application's mode is multicast and
  \<^verbatim>\<open>session.username\<close> when no application is bound.  So with a nil session these
  watches panic, with a session no watch fails on a nil dereference, and handling watch
  messages is free of nil-dereference failure only under the precondition that the
  connection's session is non-nil.  The touch step before checks the session for nil: with
  no session and no auth provider the iteration reaches the dispatch.
\<close>

theorem watch_dereferences_session:
  "(session (client w) = None \<and> getApp env (m_addr m) = None \<longrightarrow>
      watchMsg env w m = Inl (NilDereference ''c.session'')) \<and>
   (\<forall>app. session (client w) = None \<and> getApp env (m_addr m) = Some app \<and> mode app = multicastMode \<longrightarrow>
      watchMsg env w m = Inl (NilDereference ''c.session'')) \<and>
   (session (client w) \<noteq> None \<longrightarrow> (\<forall>x. watchMsg env w m \<noteq> Inl (NilDereference x))) \<and>
   ((\<forall>env' m' x. watchMsg env' w m' \<noteq> Inl (NilDereference x)) \<longleftrightarrow> session (client w) \<noteq> None) \<and>
   (session (client w) = None \<and> auth (client w) = None \<longrightarrow>
      listenIter env w msg =
        dispatch env w
          ((parseMsg env msg)\<lparr>m_addr := resolveURL env (m_addr (parseMsg env msg)) (baseURL (client w))\<rparr>))"
proof (intro conjI allI impI)
  assume "session (client w) = None \<and> getApp env (m_addr m) = None"
  then show "watchMsg env w m = Inl (NilDereference ''c.session'')"
    by (simp add: watchMsg_def watchPage_def)
next
  fix app
  assume "session (client w) = None \<and> getApp env (m_addr m) = Some app \<and> mode app = multicastMode"
  then show "watchMsg env w m = Inl (NilDereference ''c.session'')"
    by (simp add: watchMsg_def watchApp_def subscribeMode_def)
next
  fix x
  assume "session (client w) \<noteq> None"
  then show "watchMsg env w m \<noteq> Inl (NilDereference x)"
    using watchMsg_with_session by auto
next
  show "(\<forall>env' m' x. watchMsg env' w m' \<noteq> Inl (NilDereference x)) \<longleftrightarrow> session (client w) \<noteq> None"
  proof
    assume safe: "\<forall>env' m' x. watchMsg env' w m' \<noteq> Inl (NilDereference x)"
    show "session (client w) \<noteq> None"
    proof
      assume "session (client w) = None"
      then have "watchMsg (env\<lparr>getApp := \<lambda>a. None\<rparr>) w m = Inl (NilDereference ''c.session'')"
        by (simp add: watchMsg_def watchPage_def)
      with safe show False by blast
    qed
  next
    assume "session (client w) \<noteq> None"
    then show "\<forall>env' m' x. watchMsg env' w m' \<noteq> Inl (NilDereference x)"
      using watchMsg_with_session by auto
  qed
next
  assume "session (client w) = None \<and> auth (client w) = None"
  then show "listenIter env w msg =
        dispatch env w
          ((parseMsg env msg)\<lparr>m_addr := resolveURL env (m_addr (parseMsg env msg)) (baseURL (client w))\<rparr>)"
    by (simp add: listenIter_def refreshToken_def touchSession_def Let_def)
qed

text \<open>
  The theorem at the example without a session, for a route with no app and for the route
  of the multicast app, and at the example with its session.
\<close>

theorem watch_dereferences_session_witness:
  "watchMsg exampleEnv (exampleWorld\<lparr>client := exampleClient\<lparr>session := None\<rparr>\<rparr>)
      \<lparr>m_t = watchMsgT, m_addr = ''/nowhere'', m_data = []\<rparr> = Inl (NilDereference ''c.session'') \<and>
   watchMsg exampleEnv (exampleWorld\<lparr>client := exampleClient\<lparr>session := None\<rparr>\<rparr>)
      \<lparr>m_t = watchMsgT, m_addr = ''/team'', m_data = []\<rparr> = Inl (NilDereference ''c.session'') \<and>
   listenIter exampleEnv (exampleWorld\<lparr>client := exampleClient\<lparr>session := None\<rparr>\<rparr>) ''/team''
      = Inl (NilDereference ''c.session'') \<and>
   watchMsg exampleEnv exampleWorld \<lparr>m_t = watchMsgT, m_addr = ''/team'', m_data = []\<rparr>
      \<noteq> Inl (NilDereference ''c.session'')"
proof -
  let ?w = "exampleWorld\<lparr>client := exampleClient\<lparr>session := None\<rparr>\<rparr>"
  let ?m1 = "\<lparr>m_t = watchMsgT, m_addr = ''/nowhere'', m_data = []\<rparr>"
  let ?m2 = "\<lparr>m_t = watchMsgT, m_addr = ''/team'', m_data = []\<rparr>"
  have n: "session (client ?w) = None" by simp
  have a: "auth (client ?w) = None" by (simp add: exampleClient_def newClient_def)
  have g1: "getApp exampleEnv (m_addr ?m1) = None" by (simp add: exampleEnv_def)
  have g2: "getApp exampleEnv (m_addr ?m2) = Some (App ''/team'' multicastMode)"
    by (simp add: exampleEnv_def)
  have s: "session (client exampleWorld) \<noteq> None"
    by (simp add: exampleWorld_def exampleClient_def newClient_def)
  have p: "(parseMsg exampleEnv ''/team'')\<lparr>m_addr := resolveURL exampleEnv
              (m_addr (parseMsg exampleEnv ''/team'')) (baseURL (client ?w))\<rparr> = ?m2"
    by (simp add: exampleEnv_def)
  have d: "dispatch exampleEnv ?w ?m2 = watchMsg exampleEnv ?w ?m2" by (simp add: dispatch_def)
  from watch_dereferences_session [of ?w exampleEnv ?m1] n g1
  have 1: "watchMsg exampleEnv ?w ?m1 = Inl (NilDereference ''c.session'')" by simp
  from watch_dereferences_session [of ?w exampleEnv ?m2 "''/team''"] n a g2
  have 2: "watchMsg exampleEnv ?w ?m2 = Inl (NilDereference ''c.session'')"
    and 3: "listenIter exampleEnv ?w ''/team'' = dispatch exampleEnv ?w
          ((parseMsg exampleEnv ''/team'')\<lparr>m_addr := resolveURL exampleEnv
              (m_addr (parseMsg exampleEnv ''/team'')) (baseURL (client ?w))\<rparr>)"
    by simp_all
  from watch_dereferences_session [of exampleWorld exampleEnv ?m2] s
  have 4: "watchMsg exampleEnv exampleWorld ?m2 \<noteq> Inl (NilDereference ''c.session'')" by blast
  from 1 2 3 4 p d show ?thesis by simp
qed

subsection \<open>A query whose payload does not decode\<close>

text \<open>
  Claim C9, as amended.  For every query message addressed to a bound application whose
  payload fails to decode as a JSON object of string-valued fields (including malformed
  JSON), the message is not dropped on that account and nothing is logged for it: the
  error of \<^verbatim>\<open>json.Unmarshal\<close> is ignored and the application is forwarded the body
  \<^verbatim>\<open>{"args": a}\<close>, where \<open>a\<close> is the map as the failed decoding left it.  That is
  \<^verbatim>\<open>{"args":{}}\<close> when the decoder stored nothing (as for malformed JSON), and holds
  what it stored otherwise.  (Only a body that does not marshal is logged and dropped.)
\<close>

theorem query_decode_error_ignored:
  assumes app: "getApp env (m_addr m) = Some app"
    and dec: "jsonUnmarshal env (m_data m) (Some Map.empty) = (Some e, argsMap)"
  shows "queryMsg env w m =
           (case jsonMarshalBody env [''args'' \<mapsto> argsMap] of
              Some d \<Rightarrow> w\<lparr>forwarded := forwarded w @ [(app, clientID (client w), session (client w), d)]\<rparr>
            | None \<Rightarrow>
                w\<lparr>echoed := echoed w @
                     [[(''t'', ''query''), (''client'', addr (client w)), (''route'', m_addr m),
                       (''error'', ''failed marshaling body'')]]\<rparr>)"
  using assms
  by (simp add: queryMsg_def queryBody_def forward_def echo_def split: option.splits)

text \<open>The theorem at the example and a payload that is not JSON: the app gets \<^verbatim>\<open>{"args":{}}\<close>.\<close>

theorem query_decode_error_ignored_witness:
  "queryMsg exampleEnv exampleWorld \<lparr>m_t = queryMsgT, m_addr = ''/app'', m_data = ''{\"a\":''\<rparr>
     = exampleWorld\<lparr>forwarded :=
         [(App ''/app'' unicastMode, ''c1'', Some exampleSession, ''{\"args\":{}}'')]\<rparr>"
proof -
  let ?m = "\<lparr>m_t = queryMsgT, m_addr = ''/app'', m_data = ''{\"a\":''\<rparr>"
  have app: "getApp exampleEnv (m_addr ?m) = Some (App ''/app'' unicastMode)"
    by (simp add: exampleEnv_def)
  have dec: "jsonUnmarshal exampleEnv (m_data ?m) (Some Map.empty)
               = (Some ''unexpected end of JSON input'', Some Map.empty)"
    by (simp add: exampleEnv_def exampleUnmarshal_def)
  from query_decode_error_ignored [OF app dec, of exampleWorld]
  show ?thesis
    by (simp add: exampleEnv_def renderBody_def renderMap_def exampleWorld_def exampleClient_def
        newClient_def)
qed

text \<open>
  Claim C9 as it was stated fails: the payload \<^verbatim>\<open>{"a":"x","b":1}\<close> does not decode into
  string-valued fields, \<^verbatim>\<open>json.Unmarshal\<close> returns an error, and the args forwarded are
  not the empty object.
\<close>

theorem query_partial_decode_counterexample:
  "fst (jsonUnmarshal exampleEnv ''{\"a\":\"x\",\"b\":1}'' (Some Map.empty)) \<noteq> None \<and>
   queryBody exampleEnv \<lparr>m_t = queryMsgT, m_addr = ''/app'', m_data = ''{\"a\":\"x\",\"b\":1}''\<rparr> ''args''
     \<noteq> Some (Some Map.empty) \<and>
   forwarded (queryMsg exampleEnv exampleWorld
                \<lparr>m_t = queryMsgT, m_addr = ''/app'', m_data = ''{\"a\":\"x\",\"b\":1}''\<rparr>)
     = [(App ''/app'' unicastMode, ''c1'', Some exampleSession,
         ''{\"args\":{\"a\":\"x\",\"b\":\"\"}}'')]"
  by (simp add: queryMsg_def queryBody_def forward_def exampleEnv_def exampleUnmarshal_def
      renderBody_def renderMap_def exampleWorld_def exampleClient_def newClient_def)

end
